theory Spec2Isabelle
  imports Complex_Main "HOL-Library.Sublist"
begin

section \<open>Iterative feature selection \<close>

text \<open>
  The script loads a CSV data set, fits a baseline linear regression, then repeatedly
  shrinks the feature set by recursive feature elimination, refits and records the
  metrics, picks the recorded iteration of greatest R2 and writes its data set (and,
  on request, a refitted model) to a directory.

  Everything numerical is done by library calls (pandas, scikit-learn, joblib). Those
  calls are parameters of the model: the record \<open>sklearn\<close> below holds one function per
  library call, with the arguments the source passes. Cell values are of an arbitrary
  type \<open>'v\<close>, fitted models of an arbitrary type \<open>'m\<close>; metric values are real numbers.
  Messages printed to the terminal are not modelled.
\<close>

subsection \<open>Data frames\<close>

type_synonym path = string

text \<open>A data frame is its ordered sequence of named columns.\<close>

type_synonym 'v column = "string \<times> 'v list"
type_synonym 'v frame = "'v column list"

datatype error =
    NotFoundError   \<comment> \<open>the early return of \<open>optimize_model\<close> on a missing input path\<close>
  | ParserError     \<comment> \<open>\<open>pd.read_csv\<close> on something that is not a CSV file\<close>
  | IndexError      \<comment> \<open>positional indexing out of range\<close>
  | ValueError      \<comment> \<open>\<open>max\<close> of an empty sequence\<close>
  | SplitError      \<comment> \<open>raised by \<open>train_test_split\<close>\<close>
  | FitError        \<comment> \<open>raised by \<open>LinearRegression.fit\<close>\<close>
  | RankingError    \<comment> \<open>raised by \<open>RFE.fit\<close>\<close>

text \<open>\<open>data.iloc[:, :-1]\<close>: all columns but the last; never raises.\<close>

definition iloc_features :: "'v frame \<Rightarrow> 'v frame" where
  "iloc_features data = butlast data"

text \<open>\<open>data.iloc[:, -1]\<close>: the values of the last column; raises on a frame without columns.\<close>

definition iloc_target :: "'v frame \<Rightarrow> error + 'v list" where
  "iloc_target data = (case data of [] \<Rightarrow> Inl IndexError | _ \<Rightarrow> Inr (snd (last data)))"

text \<open>
  \<open>X.columns[mask]\<close>: the names of the columns where the boolean mask is true, in
  column order; a mask of the wrong length raises.
\<close>

definition columns_mask :: "'v frame \<Rightarrow> bool list \<Rightarrow> error + string list" where
  "columns_mask X support =
     (if length support \<noteq> length X then Inl IndexError
      else Inr (map (fst \<circ> fst) (filter snd (zip X support))))"

text \<open>
  \<open>X.loc[:, names]\<close>: for each requested name, in the order requested, the columns of
  that name.
\<close>

definition loc_columns :: "'v frame \<Rightarrow> string list \<Rightarrow> 'v frame" where
  "loc_columns X names = concat (map (\<lambda>n. filter (\<lambda>c. fst c = n) X) names)"

text \<open>
  \<open>df[name] = values\<close>: a column of that name is overwritten in place; otherwise the
  column is appended on the right.
\<close>

definition setitem :: "'v frame \<Rightarrow> string \<Rightarrow> 'v list \<Rightarrow> 'v frame" where
  "setitem df name vals =
     (if name \<in> set (map fst df)
      then map (\<lambda>c. if fst c = name then (name, vals) else c) df
      else df @ [(name, vals)])"

subsection \<open>The library calls\<close>

record metrics =
  R2 :: real
  RMSE :: real
  MAE :: real
  Explained_Variance :: real

text \<open>
  \<open>train_test_split sk X y\<close> is \<open>train_test_split(X, y, test_size=0.2, random_state=42)\<close>
  and returns \<open>(X_train, X_test, y_train, y_test)\<close>;
  \<open>lr_fit sk X y\<close> is \<open>LinearRegression().fit(X, y)\<close>; \<open>np_sqrt sk\<close> is \<open>np.sqrt\<close>;
  \<open>rfe_support sk X y step n\<close> is the attribute \<open>support_\<close> of
  \<open>RFE(estimator=SVR(kernel='linear'), step=step, n_features_to_select=n)\<close> after
  \<open>fit(X, y)\<close>.
\<close>

record ('v, 'm) sklearn =
  train_test_split :: "'v frame \<Rightarrow> 'v list \<Rightarrow> error + ('v frame \<times> 'v frame \<times> 'v list \<times> 'v list)"
  lr_fit :: "'v frame \<Rightarrow> 'v list \<Rightarrow> error + 'm"
  lr_predict :: "'m \<Rightarrow> 'v frame \<Rightarrow> 'v list"
  r2_score :: "'v list \<Rightarrow> 'v list \<Rightarrow> real"
  mean_squared_error :: "'v list \<Rightarrow> 'v list \<Rightarrow> real"
  mean_absolute_error :: "'v list \<Rightarrow> 'v list \<Rightarrow> real"
  explained_variance_score :: "'v list \<Rightarrow> 'v list \<Rightarrow> real"
  np_sqrt :: "real \<Rightarrow> real"
  rfe_support :: "'v frame \<Rightarrow> 'v list \<Rightarrow> int \<Rightarrow> int \<Rightarrow> error + bool list"

subsection \<open>\<open>train_model\<close>\<close>

definition train_model :: "('v, 'm) sklearn \<Rightarrow> 'v frame \<Rightarrow> error + ('m \<times> metrics)" where
  "train_model sk data =
     (let X = iloc_features data in
      case iloc_target data of Inl e \<Rightarrow> Inl e | Inr y \<Rightarrow>
      (case train_test_split sk X y of Inl e \<Rightarrow> Inl e
       | Inr (X_train, X_test, y_train, y_test) \<Rightarrow>
         (case lr_fit sk X_train y_train of Inl e \<Rightarrow> Inl e
          | Inr model \<Rightarrow>
            (let y_pred = lr_predict sk model X_test in
             Inr (model,
                  \<lparr> R2 = r2_score sk y_test y_pred,
                    RMSE = np_sqrt sk (mean_squared_error sk y_test y_pred),
                    MAE = mean_absolute_error sk y_test y_pred,
                    Explained_Variance = explained_variance_score sk y_test y_pred \<rparr>)))))"

subsection \<open>\<open>feature_selection\<close>\<close>

text \<open>The number of features asked of the ranking: lines 57 to 59 of the script.\<close>

definition n_features :: "'v frame \<Rightarrow> int \<Rightarrow> int" where
  "n_features X remove_count =
     (let n = int (length X) - remove_count in if n < 1 then 1 else n)"

definition feature_selection ::
  "('v, 'm) sklearn \<Rightarrow> 'v frame \<Rightarrow> int \<Rightarrow> int \<Rightarrow> error + ('v frame \<times> string list)" where
  "feature_selection sk data step remove_count =
     (let X = iloc_features data in
      case iloc_target data of Inl e \<Rightarrow> Inl e | Inr y \<Rightarrow>
      (case rfe_support sk X y step (n_features X remove_count) of Inl e \<Rightarrow> Inl e
       | Inr support \<Rightarrow>
         (case columns_mask X support of Inl e \<Rightarrow> Inl e
          | Inr selected_features \<Rightarrow>
            (let X_selected = loc_columns X selected_features;
                 final_data = setitem X_selected ''target'' y
             in Inr (final_data, selected_features)))))"

subsection \<open>Strings, paths and the file system\<close>

definition digit_char :: "nat \<Rightarrow> char" where
  "digit_char d = ''0123456789'' ! d"

text \<open>Python's \<open>str\<close> of a non-negative integer: its decimal digits.\<close>

fun str_nat :: "nat \<Rightarrow> string" where
  "str_nat n = (if n < 10 then [digit_char n] else str_nat (n div 10) @ [digit_char (n mod 10)])"

declare str_nat.simps [simp del]

text \<open>
  \<open>str.strip\<close> and \<open>str.lower\<close> on the ASCII range: white space is tab, line feed,
  vertical tab, form feed, carriage return, the four separators 28 to 31 and the space.
\<close>

definition is_space :: "char \<Rightarrow> bool" where
  "is_space c = (c \<in> set [CHR 0x09, CHR 0x0A, CHR 0x0B, CHR 0x0C, CHR 0x0D,
                          CHR 0x1C, CHR 0x1D, CHR 0x1E, CHR 0x1F, CHR '' ''])"

definition strip :: "string \<Rightarrow> string" where
  "strip s = rev (dropWhile is_space (rev (dropWhile is_space s)))"

definition lower_char :: "char \<Rightarrow> char" where
  "lower_char c =
     (case map_of (zip ''ABCDEFGHIJKLMNOPQRSTUVWXYZ'' ''abcdefghijklmnopqrstuvwxyz'') c of
        Some l \<Rightarrow> l | None \<Rightarrow> c)"

definition lower :: "string \<Rightarrow> string" where
  "lower s = map lower_char s"

text \<open>\<open>os.path.join\<close> of two components on a POSIX system.\<close>

definition path_join :: "path \<Rightarrow> string \<Rightarrow> path" where
  "path_join a b =
     (if b \<noteq> [] \<and> hd b = CHR ''/'' then b
      else if a = [] \<or> last a = CHR ''/'' then a @ b
      else a @ ''/'' @ b)"

text \<open>
  The file system maps a path to what is stored there. A CSV file is held as the frame
  it encodes: the header row is the column names, and there is no index column.
\<close>

datatype ('v, 'm) node = Directory | CsvFile "'v frame" | ModelFile 'm

type_synonym ('v, 'm) fs = "path \<rightharpoonup> ('v, 'm) node"

definition path_exists :: "('v, 'm) fs \<Rightarrow> path \<Rightarrow> bool" where
  "path_exists fs p = (fs p \<noteq> None)"

definition read_csv :: "('v, 'm) fs \<Rightarrow> path \<Rightarrow> error + 'v frame" where
  "read_csv fs p = (case fs p of Some (CsvFile d) \<Rightarrow> Inr d | _ \<Rightarrow> Inl ParserError)"

text \<open>
  The writes of the script, in the order they are issued: \<open>os.makedirs(dir)\<close>,
  \<open>dump(model, file)\<close> and \<open>frame.to_csv(file, index=False)\<close>. They are taken to
  succeed; of the directories \<open>os.makedirs\<close> creates, only the one asked for is
  recorded.
\<close>

datatype ('v, 'm) fs_op = Makedirs path | Dump 'm path | To_csv "'v frame" path

fun apply_op :: "('v, 'm) fs \<Rightarrow> ('v, 'm) fs_op \<Rightarrow> ('v, 'm) fs" where
  "apply_op fs (Makedirs d) = fs(d \<mapsto> Directory)"
| "apply_op fs (Dump m p) = fs(p \<mapsto> ModelFile m)"
| "apply_op fs (To_csv d p) = fs(p \<mapsto> CsvFile d)"

definition apply_ops :: "('v, 'm) fs \<Rightarrow> ('v, 'm) fs_op list \<Rightarrow> ('v, 'm) fs" where
  "apply_ops fs ops = foldl apply_op fs ops"

subsection \<open>Python's \<open>max\<close> with a key\<close>

text \<open>
  \<open>max(xs, key=k)\<close> scans from the left and replaces the current best only by an
  element whose key is strictly greater; on an empty sequence it raises. Keys are real
  numbers: a floating-point NaN, which compares false with everything, is not a value
  of the model.
\<close>

fun max_scan :: "('a \<Rightarrow> real) \<Rightarrow> 'a \<Rightarrow> 'a list \<Rightarrow> 'a" where
  "max_scan k best [] = best"
| "max_scan k best (x # xs) = max_scan k (if k x > k best then x else best) xs"

definition py_max :: "('a \<Rightarrow> real) \<Rightarrow> 'a list \<Rightarrow> error + 'a" where
  "py_max k xs = (case xs of [] \<Rightarrow> Inl ValueError | x # rest \<Rightarrow> Inr (max_scan k x rest))"

subsection \<open>\<open>optimize_model\<close>\<close>

type_synonym 'v record_entry = "string \<times> metrics \<times> 'v frame"

text \<open>
  The \<open>while True\<close> loop of \<open>optimize_model\<close>. Its state is the working data set, the
  current feature count, the iteration number and the list of recorded iterations.
  The loop need not terminate, so the result is an option: \<open>None\<close> is a loop that runs
  forever.
\<close>

partial_function (option) selection_loop ::
  "('v, 'm) sklearn \<Rightarrow> int \<Rightarrow> int \<Rightarrow> int \<Rightarrow> 'v frame \<Rightarrow> int \<Rightarrow> nat \<Rightarrow> 'v record_entry list
    \<Rightarrow> (error + 'v record_entry list) option" where
  "selection_loop sk step remove_count min_features data current_features iteration models_metrics =
     (if current_features \<le> min_features then Some (Inr models_metrics)
      else
        (case feature_selection sk data step remove_count of Inl e \<Rightarrow> Some (Inl e)
         | Inr (data', selected_features) \<Rightarrow>
           (case train_model sk data' of Inl e \<Rightarrow> Some (Inl e)
            | Inr (model, metrics) \<Rightarrow>
              selection_loop sk step remove_count min_features data'
                (int (length selected_features)) (iteration + 1)
                (models_metrics @ [(''model_iteration_'' @ str_nat iteration, metrics, data')]))))"

declare selection_loop.simps [code]

text \<open>
  One pass of the loop body, as a step on the loop state: the stopping test fails, the
  ranking and the refit succeed, and the iteration is recorded.
\<close>

type_synonym 'v loop_state = "'v frame \<times> int \<times> nat \<times> 'v record_entry list"

inductive pass ::
  "('v, 'm) sklearn \<Rightarrow> int \<Rightarrow> int \<Rightarrow> int \<Rightarrow> 'v loop_state \<Rightarrow> 'v loop_state \<Rightarrow> bool"
  for sk step remove_count min_features where
  passI:
    "\<not> current_features \<le> min_features
     \<Longrightarrow> feature_selection sk data step remove_count = Inr (data', selected_features)
     \<Longrightarrow> train_model sk data' = Inr (model, metrics)
     \<Longrightarrow> pass sk step remove_count min_features
           (data, current_features, iteration, models_metrics)
           (data', int (length selected_features), iteration + 1,
            models_metrics @ [(''model_iteration_'' @ str_nat iteration, metrics, data')])"

code_pred pass .

text \<open>
  What a completed run has computed. The script prints the winner and returns nothing;
  the model returns the values so that they can be spoken about.
\<close>

record ('v, 'm) run_summary =
  models_metrics :: "'v record_entry list"
  best_model_name :: string
  best_metrics :: metrics
  best_data :: "'v frame"
  final_model :: 'm
  best_model_file :: path
  best_features_file :: path

text \<open>
  \<open>optimize_model sk fs answer file_path step remove_count min_features save_dir\<close>:
  \<open>fs\<close> is the file system at the start and \<open>answer\<close> the line typed at the prompt.
  The result is \<open>None\<close> when the loop runs forever, and otherwise the writes issued, in
  order, with either the error that ended the run or the summary of the completed run.
\<close>

definition optimize_model ::
  "('v, 'm) sklearn \<Rightarrow> ('v, 'm) fs \<Rightarrow> string \<Rightarrow> path \<Rightarrow> int \<Rightarrow> int \<Rightarrow> int \<Rightarrow> path
    \<Rightarrow> (('v, 'm) fs_op list \<times> (error + ('v, 'm) run_summary)) option" where
  "optimize_model sk fs answer file_path step remove_count min_features save_dir =
     (if \<not> path_exists fs file_path then Some ([], Inl NotFoundError)
      else
        (case read_csv fs file_path of Inl e \<Rightarrow> Some ([], Inl e) | Inr data \<Rightarrow>
         (let initial_features = int (length data) - 1 in
          case train_model sk data of Inl e \<Rightarrow> Some ([], Inl e)
          | Inr (initial_model, initial_metrics) \<Rightarrow>
            (case selection_loop sk step remove_count min_features data initial_features 1
                    [(''initial_model'', initial_metrics, data)] of
               None \<Rightarrow> None
             | Some (Inl e) \<Rightarrow> Some ([], Inl e)
             | Some (Inr recorded) \<Rightarrow>
               (case py_max (\<lambda>x. R2 (fst (snd x))) recorded of Inl e \<Rightarrow> Some ([], Inl e)
                | Inr (name, best_m, best_d) \<Rightarrow>
                  (let mk = (if \<not> path_exists fs save_dir then [Makedirs save_dir] else []);
                       model_file = path_join save_dir (''best_model_'' @ name @ ''.joblib'');
                       features_file = path_join save_dir (''best_features_'' @ name @ ''.csv'')
                   in
                   case iloc_target best_d of Inl e \<Rightarrow> Some (mk, Inl e) | Inr y \<Rightarrow>
                   (case lr_fit sk (iloc_features best_d) y of Inl e \<Rightarrow> Some (mk, Inl e)
                    | Inr fitted \<Rightarrow>
                      (let save_model = lower (strip answer);
                           dump = (if save_model \<in> {''yes'', ''y''} then [Dump fitted model_file] else [])
                       in Some (mk @ dump @ [To_csv best_d features_file],
                                Inr \<lparr> models_metrics = recorded,
                                      best_model_name = name,
                                      best_metrics = best_m,
                                      best_data = best_d,
                                      final_model = fitted,
                                      best_model_file = model_file,
                                      best_features_file = features_file \<rparr>)))))))))"

subsection \<open>What the recursive feature elimination promises\<close>

text \<open>
  When asked for \<open>n\<close> of the columns of \<open>X\<close>, with \<open>1 \<le> n \<le> length X\<close>, a successful
  \<open>RFE.fit\<close> marks exactly \<open>n\<close> columns in a mask over all columns.
\<close>

definition rfe_contract :: "('v, 'm) sklearn \<Rightarrow> bool" where
  "rfe_contract sk =
     (\<forall>X y step n support.
         1 \<le> n \<and> n \<le> int (length X) \<and> rfe_support sk X y step n = Inr support
         \<longrightarrow> length support = length X \<and> int (length (filter id support)) = n)"

text \<open>
  A successful \<open>train_test_split\<close> holds out at least one row: the training targets are
  fewer than the targets given.
\<close>

definition holds_out :: "('v, 'm) sklearn \<Rightarrow> bool" where
  "holds_out sk =
     (\<forall>X y X_train X_test y_train y_test.
         train_test_split sk X y = Inr (X_train, X_test, y_train, y_test)
         \<longrightarrow> length y_train < length y)"

subsection \<open>Test doubles and test data\<close>

text \<open>
  Deterministic stand-ins for the library calls, over integer cells. A fitted model is
  the pair of the number of feature columns and the number of rows it was fitted on;
  the split holds out the last row; the ranking keeps the leftmost columns; R2 is one
  half with three features and four fifths with two or with one.
\<close>

definition stub_sk :: "(int, nat \<times> nat) sklearn" where
  "stub_sk =
     \<lparr> train_test_split = (\<lambda>X y. if y = [] then Inl SplitError
          else Inr (map (\<lambda>c. (fst c, butlast (snd c))) X, map (\<lambda>c. (fst c, [last (snd c)])) X,
                    butlast y, [last y])),
       lr_fit = (\<lambda>X y. Inr (length X, length y)),
       lr_predict = (\<lambda>m X. [int (fst m)]),
       r2_score = (\<lambda>y_test y_pred.
          if y_pred = [3] then 1 / 2 else if y_pred = [2] \<or> y_pred = [1] then 4 / 5 else 0),
       mean_squared_error = (\<lambda>y_test y_pred. 4),
       mean_absolute_error = (\<lambda>y_test y_pred. 1),
       explained_variance_score = (\<lambda>y_test y_pred. 1 / 2),
       np_sqrt = (\<lambda>x. if x = 4 then 2 else 0),
       rfe_support = (\<lambda>X y step n. Inr (map (\<lambda>i. int i < n) [0..<length X])) \<rparr>"

text \<open>The same, with a ranking that always fails.\<close>

definition stub_failing_rfe :: "(int, nat \<times> nat) sklearn" where
  "stub_failing_rfe = stub_sk \<lparr> rfe_support := (\<lambda>X y step n. Inl RankingError) \<rparr>"

text \<open>The same, with a refit that fails on two rows (the whole of the test data).\<close>

definition stub_failing_refit :: "(int, nat \<times> nat) sklearn" where
  "stub_failing_refit =
     stub_sk \<lparr> lr_fit := (\<lambda>X y. if length y = 2 then Inl FitError else Inr (length X, length y)) \<rparr>"

definition data0 :: "int frame" where
  "data0 = [(''a'', [1, 2]), (''b'', [3, 4]), (''c'', [5, 6]), (''y'', [7, 8])]"

definition data1 :: "int frame" where
  "data1 = [(''a'', [1, 2]), (''y'', [7, 8])]"

definition fs0 :: "(int, nat \<times> nat) fs" where
  "fs0 = [''data.csv'' \<mapsto> CsvFile data0, ''one.csv'' \<mapsto> CsvFile data1]"


text \<open>
  The run on \<open>data.csv\<close> with step 1, one feature removed per pass and a minimum of one
  feature, the prompt answered \<open>yes\<close>: iteration 1 and iteration 2 tie on R2.
\<close>

definition m_half :: metrics where
  "m_half = \<lparr> R2 = 1 / 2, RMSE = 2, MAE = 1, Explained_Variance = 1 / 2 \<rparr>"

definition m_four_fifths :: metrics where
  "m_four_fifths = \<lparr> R2 = 4 / 5, RMSE = 2, MAE = 1, Explained_Variance = 1 / 2 \<rparr>"

definition data_ab :: "int frame" where
  "data_ab = [(''a'', [1, 2]), (''b'', [3, 4]), (''target'', [7, 8])]"

definition data_a :: "int frame" where
  "data_a = [(''a'', [1, 2]), (''target'', [7, 8])]"

definition run1_ops :: "(int, nat \<times> nat) fs_op list" where
  "run1_ops =
     [Makedirs ''out'',
      Dump (2, 2) ''out/best_model_model_iteration_1.joblib'',
      To_csv data_ab ''out/best_features_model_iteration_1.csv'']"

definition run1_summary :: "(int, nat \<times> nat) run_summary" where
  "run1_summary =
     \<lparr> models_metrics =
         [(''initial_model'', m_half, data0),
          (''model_iteration_1'', m_four_fifths, data_ab),
          (''model_iteration_2'', m_four_fifths, data_a)],
       best_model_name = ''model_iteration_1'',
       best_metrics = m_four_fifths,
       best_data = data_ab,
       final_model = (2, 2),
       best_model_file = ''out/best_model_model_iteration_1.joblib'',
       best_features_file = ''out/best_features_model_iteration_1.csv'' \<rparr>"

text \<open>The run on the same data with a minimum of three features, answered \<open>no\<close>.\<close>

definition run0_ops :: "(int, nat \<times> nat) fs_op list" where
  "run0_ops = [Makedirs ''out'', To_csv data0 ''out/best_features_initial_model.csv'']"

definition run0_summary :: "(int, nat \<times> nat) run_summary" where
  "run0_summary =
     \<lparr> models_metrics = [(''initial_model'', m_half, data0)],
       best_model_name = ''initial_model'',
       best_metrics = m_half,
       best_data = data0,
       final_model = (3, 2),
       best_model_file = ''out/best_model_initial_model.joblib'',
       best_features_file = ''out/best_features_initial_model.csv'' \<rparr>"

section \<open>Properties\<close>

subsection \<open>Evaluating the test runs\<close>

lemmas frame_defs =
  iloc_features_def iloc_target_def columns_mask_def loc_columns_def setitem_def

lemmas string_defs =
  str_nat.simps digit_char_def path_join_def lower_def strip_def lower_char_def is_space_def

lemmas run_defs =
  optimize_model_def path_exists_def read_csv_def train_model_def feature_selection_def
  n_features_def py_max_def

lemmas fixture_defs =
  stub_sk_def data0_def data1_def fs0_def m_half_def m_four_fifths_def data_ab_def data_a_def

lemma run1:
  "optimize_model stub_sk fs0 ''yes'' ''data.csv'' 1 1 1 ''out'' = Some (run1_ops, Inr run1_summary)"
  by (simp add: run_defs frame_defs string_defs fixture_defs run1_ops_def run1_summary_def
      selection_loop.simps upt_rec Let_def)

lemma run0:
  "optimize_model stub_sk fs0 ''no'' ''data.csv'' 1 1 3 ''out'' = Some (run0_ops, Inr run0_summary)"
  by (simp add: run_defs frame_defs string_defs fixture_defs run0_ops_def run0_summary_def
      selection_loop.simps Let_def)

subsection \<open>The left-to-right maximum\<close>

lemma max_scan_mem: "max_scan k best xs \<in> set (best # xs)"
  by (induction xs arbitrary: best) auto




subsection \<open>Reasoning about the loop\<close>

text \<open>An invariant of the loop state holds of the recorded iterations when the loop returns.\<close>

lemma selection_loop_invariant:
  assumes run: "selection_loop sk step rc mn data cur it recs = Some (Inr out)"
    and init: "I data recs"
    and pres: "\<And>d rs d' sel m mt i. I d rs \<Longrightarrow> feature_selection sk d step rc = Inr (d', sel)
                 \<Longrightarrow> train_model sk d' = Inr (m, mt)
                 \<Longrightarrow> I d' (rs @ [(''model_iteration_'' @ str_nat i, mt, d')])"
  shows "\<exists>d. I d out"
proof -
  let ?P = "\<lambda>sk' step' rc' (mn'::int) d (c::int) (i::nat) rs (y :: error + 'a record_entry list).
              sk' = sk \<longrightarrow> step' = step \<longrightarrow> rc' = rc \<longrightarrow> I d rs \<longrightarrow>
              (\<forall>out. y = Inr out \<longrightarrow> (\<exists>d. I d out))"
  have "?P sk step rc mn data cur it recs (Inr out)"
  proof (rule selection_loop.raw_induct [where P = ?P, OF _ run], goal_cases)
    case (1 loop sk' step' rc' mn' data cur it recs y)
    show ?case
    proof (intro impI allI)
      fix out
      assume eqs: "sk' = sk" "step' = step" "rc' = rc" and I: "I data recs" and y: "y = Inr out"
      show "\<exists>d. I d out"
      proof (cases "cur \<le> mn'")
        case True
        with 1(2) y have "out = recs" by simp
        with I show ?thesis by blast
      next
        case False
        with 1(2) y eqs obtain d' sel m mt where
          fs: "feature_selection sk data step rc = Inr (d', sel)" and
          tm: "train_model sk d' = Inr (m, mt)" and
          rec: "loop sk step rc mn' d' (int (length sel)) (it + 1)
                  (recs @ [(''model_iteration_'' @ str_nat it, mt, d')]) = Some (Inr out)"
          by (auto split: sum.splits prod.splits)
        from pres [OF I fs tm] have "I d' (recs @ [(''model_iteration_'' @ str_nat it, mt, d')])" .
        with 1(1) [OF rec] show ?thesis by blast
      qed
    qed
  qed
  with init show ?thesis by simp
qed



text \<open>What a completed run went through.\<close>

lemma optimize_model_completed:
  assumes run: "optimize_model sk fs answer file_path step rc mn save_dir = Some (ops, Inr s)"
  obtains data m0 mt0 y where
    "path_exists fs file_path"
    "read_csv fs file_path = Inr data"
    "train_model sk data = Inr (m0, mt0)"
    "selection_loop sk step rc mn data (int (length data) - 1) 1 [(''initial_model'', mt0, data)]
       = Some (Inr (models_metrics s))"
    "py_max (\<lambda>x. R2 (fst (snd x))) (models_metrics s)
       = Inr (best_model_name s, best_metrics s, best_data s)"
    "iloc_target (best_data s) = Inr y"
    "lr_fit sk (iloc_features (best_data s)) y = Inr (final_model s)"
    "best_model_file s = path_join save_dir (''best_model_'' @ best_model_name s @ ''.joblib'')"
    "best_features_file s = path_join save_dir (''best_features_'' @ best_model_name s @ ''.csv'')"
    "ops = (if \<not> path_exists fs save_dir then [Makedirs save_dir] else [])
           @ (if lower (strip answer) \<in> {''yes'', ''y''} then [Dump (final_model s) (best_model_file s)] else [])
           @ [To_csv (best_data s) (best_features_file s)]"
proof -
  from run have ex: "path_exists fs file_path"
    by (auto simp: optimize_model_def split: if_splits)
  from run ex obtain data where rd: "read_csv fs file_path = Inr data"
    by (cases "read_csv fs file_path") (auto simp: optimize_model_def)
  from run ex rd obtain m0 mt0 where tm: "train_model sk data = Inr (m0, mt0)"
    by (cases "train_model sk data") (auto simp: optimize_model_def)
  let ?loop = "selection_loop sk step rc mn data (int (length data) - 1) 1 [(''initial_model'', mt0, data)]"
  from run ex rd tm obtain recorded where lp: "?loop = Some (Inr recorded)"
    by (cases ?loop; cases "the ?loop") (auto simp: optimize_model_def)
  from run ex rd tm lp obtain name best_m best_d where
    mx: "py_max (\<lambda>x. R2 (fst (snd x))) recorded = Inr (name, best_m, best_d)"
    by (cases "py_max (\<lambda>x. R2 (fst (snd x))) recorded") (auto simp: optimize_model_def)
  from run ex rd tm lp mx obtain y where y: "iloc_target best_d = Inr y"
    by (cases "iloc_target best_d") (auto simp: optimize_model_def Let_def)
  from run ex rd tm lp mx y obtain fitted where ft: "lr_fit sk (iloc_features best_d) y = Inr fitted"
    by (cases "lr_fit sk (iloc_features best_d) y") (auto simp: optimize_model_def Let_def)
  from run ex rd tm lp mx y ft have
    s: "s = \<lparr> models_metrics = recorded, best_model_name = name, best_metrics = best_m,
              best_data = best_d, final_model = fitted,
              best_model_file = path_join save_dir (''best_model_'' @ name @ ''.joblib''),
              best_features_file = path_join save_dir (''best_features_'' @ name @ ''.csv'') \<rparr>"
    and ops: "ops = (if \<not> path_exists fs save_dir then [Makedirs save_dir] else [])
           @ (if lower (strip answer) \<in> {''yes'', ''y''}
              then [Dump fitted (path_join save_dir (''best_model_'' @ name @ ''.joblib''))] else [])
           @ [To_csv best_d (path_join save_dir (''best_features_'' @ name @ ''.csv''))]"
    by (auto simp: optimize_model_def Let_def)
  show thesis
    using lp mx y ft ops by (intro that [OF ex rd tm, of y]) (simp_all add: s)
qed

subsection \<open>The number of features asked of the ranking\<close>

text \<open>
  Claim C5. In every ranking pass the number of features requested of the ranking is
  \<open>max(1, current feature count - remove_count)\<close>, hence never below 1, however
  large \<open>remove_count\<close> is: \<open>feature_selection\<close> calls the ranking with exactly that
  number.
\<close>

theorem ranking_request_clamped:
  "n_features X remove_count = max 1 (int (length X) - remove_count)
   \<and> 1 \<le> n_features X remove_count
   \<and> feature_selection sk data step remove_count =
       (case iloc_target data of Inl e \<Rightarrow> Inl e
        | Inr y \<Rightarrow>
          (case rfe_support sk (iloc_features data) y step
                  (max 1 (int (length (iloc_features data)) - remove_count)) of
             Inl e \<Rightarrow> Inl e
           | Inr support \<Rightarrow>
             (case columns_mask (iloc_features data) support of Inl e \<Rightarrow> Inl e
              | Inr selected_features \<Rightarrow>
                Inr (setitem (loc_columns (iloc_features data) selected_features) ''target'' y,
                     selected_features))))"
proof -
  have eq: "n_features (iloc_features data) remove_count
                = max 1 (int (length (iloc_features data)) - remove_count)"
    by (simp add: n_features_def Let_def max_def)
  have "n_features X remove_count = max 1 (int (length X) - remove_count)"
    by (simp add: n_features_def Let_def max_def)
  moreover have "1 \<le> n_features X remove_count"
    by (simp add: n_features_def Let_def)
  moreover have "feature_selection sk data step remove_count =
       (case iloc_target data of Inl e \<Rightarrow> Inl e
        | Inr y \<Rightarrow>
          (case rfe_support sk (iloc_features data) y step
                  (max 1 (int (length (iloc_features data)) - remove_count)) of
             Inl e \<Rightarrow> Inl e
           | Inr support \<Rightarrow>
             (case columns_mask (iloc_features data) support of Inl e \<Rightarrow> Inl e
              | Inr selected_features \<Rightarrow>
                Inr (setitem (loc_columns (iloc_features data) selected_features) ''target'' y,
                     selected_features))))"
    unfolding feature_selection_def Let_def eq by (rule refl)
  ultimately show ?thesis by blast
qed

subsection \<open>Best selection\<close>




subsection \<open>Passes of the loop\<close>

text \<open>A pass leaves the outcome of the loop unchanged: the loop continues from the new state.\<close>

lemma pass_same_result:
  assumes "pass sk step rc mn (d, c, i, rs) (d', c', i', rs')"
  shows "selection_loop sk step rc mn d c i rs = selection_loop sk step rc mn d' c' i' rs'"
  using assms by cases (subst selection_loop.simps, simp)

lemma passes_same_result:
  assumes "(pass sk step rc mn)\<^sup>*\<^sup>* st st'"
  shows "(case st of (d, c, i, rs) \<Rightarrow> selection_loop sk step rc mn d c i rs)
       = (case st' of (d, c, i, rs) \<Rightarrow> selection_loop sk step rc mn d c i rs)"
  using assms
proof (induction rule: rtranclp_induct)
  case base
  show ?case ..
next
  case (step y z)
  obtain d c i rs where y: "y = (d, c, i, rs)" by (cases y)
  obtain d' c' i' rs' where z: "z = (d', c', i', rs')" by (cases z)
  from step.hyps(2) have "selection_loop sk step rc mn d c i rs = selection_loop sk step rc mn d' c' i' rs'"
    unfolding y z by (rule pass_same_result)
  with step.IH show ?case by (simp add: y z)
qed


lemma failing_pass_aborts:
  assumes "\<not> c \<le> mn" and "feature_selection sk d step rc = Inl e"
  shows "selection_loop sk step rc mn d c i rs = Some (Inl e)"
  using assms by (subst selection_loop.simps) simp

subsection \<open>Persistence\<close>




text \<open>
  Claim C8 as stated fails. In the test run answered \<open>yes\<close>, after the first two
  writes (the directory and the model) the model file exists and the feature-subset
  file does not.
\<close>

theorem csv_before_model_counterexample:
  "optimize_model stub_sk fs0 ''yes'' ''data.csv'' 1 1 1 ''out'' = Some (run1_ops, Inr run1_summary)
   \<and> path_exists (apply_ops fs0 (take 2 run1_ops)) (best_model_file run1_summary)
   \<and> \<not> path_exists (apply_ops fs0 (take 2 run1_ops)) (best_features_file run1_summary)"
proof -
  have "path_exists (apply_ops fs0 (take 2 run1_ops)) (best_model_file run1_summary)"
    by (simp add: path_exists_def apply_ops_def run1_ops_def run1_summary_def fs0_def)
  moreover have "\<not> path_exists (apply_ops fs0 (take 2 run1_ops)) (best_features_file run1_summary)"
    by (simp add: path_exists_def apply_ops_def run1_ops_def run1_summary_def fs0_def)
  ultimately show ?thesis using run1 by blast
qed

text \<open>
  Claim C8, amended. In every completed run that persists both files the model
  artifact is serialized first and the feature-subset CSV is written immediately
  after it, as the last write of the run; the only write that can precede them is the
  creation of the directory.
\<close>

theorem model_written_before_csv:
  assumes run: "optimize_model sk fs answer file_path step remove_count min_features save_dir
                  = Some (ops, Inr s)"
    and confirm: "lower (strip answer) \<in> {''yes'', ''y''}"
  shows "\<exists>pre. ops = pre @ [Dump (final_model s) (best_model_file s),
                          To_csv (best_data s) (best_features_file s)]
             \<and> (pre = [] \<or> pre = [Makedirs save_dir])"
proof -
  from run have "ops = (if \<not> path_exists fs save_dir then [Makedirs save_dir] else [])
           @ (if lower (strip answer) \<in> {''yes'', ''y''} then [Dump (final_model s) (best_model_file s)] else [])
           @ [To_csv (best_data s) (best_features_file s)]"
    by (rule optimize_model_completed)
  with confirm show ?thesis by auto
qed

theorem model_written_before_csv_witness:
  "optimize_model stub_sk fs0 ''yes'' ''data.csv'' 1 1 1 ''out'' = Some (run1_ops, Inr run1_summary)
   \<and> lower (strip ''yes'') \<in> {''yes'', ''y''}
   \<and> (\<exists>pre. run1_ops = pre @ [Dump (final_model run1_summary) (best_model_file run1_summary),
                          To_csv (best_data run1_summary) (best_features_file run1_summary)]
             \<and> (pre = [] \<or> pre = [Makedirs ''out'']))"
proof -
  have c: "lower (strip ''yes'') \<in> {''yes'', ''y''}"
    by (simp add: string_defs)
  from run1 c model_written_before_csv [OF run1 c] show ?thesis by blast
qed

subsection \<open>Aborted runs\<close>

lemma read_csv_exists: "read_csv fs p = Inr d \<Longrightarrow> path_exists fs p"
  by (auto simp: read_csv_def path_exists_def split: option.splits node.splits)

lemma aborted_run_ops:
  assumes run: "optimize_model sk fs answer file_path step rc mn save_dir = Some (ops, Inl e)"
  shows "ops = [] \<or> ops = [Makedirs save_dir]"
  using run unfolding optimize_model_def Let_def
  by (auto split: if_splits sum.splits option.splits prod.splits)

text \<open>
  Claim C9. If the input path does not exist the run ends at once with no write at
  all: no directory created and no file written. If the ranking fails in any pass the
  loop reaches, the run aborts with that error and, again, with no write at all. In
  general a run that aborts has written no file: the only write it can have issued is
  the creation of the directory, which precedes the final refit.
\<close>

theorem aborted_runs_write_no_file:
  "(\<not> path_exists fs file_path \<longrightarrow>
      optimize_model sk fs answer file_path step remove_count min_features save_dir
        = Some ([], Inl NotFoundError))
   \<and> (read_csv fs file_path = Inr data \<and> train_model sk data = Inr (m0, mt0)
        \<and> (pass sk step remove_count min_features)\<^sup>*\<^sup>*
              (data, int (length data) - 1, 1, [(''initial_model'', mt0, data)]) (d, c, i, rs)
        \<and> \<not> c \<le> min_features \<and> feature_selection sk d step remove_count = Inl e
      \<longrightarrow> optimize_model sk fs answer file_path step remove_count min_features save_dir
            = Some ([], Inl e))
   \<and> (optimize_model sk fs answer file_path step remove_count min_features save_dir
          = Some (ops, Inl e')
      \<longrightarrow> (\<forall>op \<in> set ops. op = Makedirs save_dir))"
proof (intro conjI impI)
  assume "\<not> path_exists fs file_path"
  then show "optimize_model sk fs answer file_path step remove_count min_features save_dir
        = Some ([], Inl NotFoundError)"
    by (simp add: optimize_model_def)
next
  assume h: "read_csv fs file_path = Inr data \<and> train_model sk data = Inr (m0, mt0)
        \<and> (pass sk step remove_count min_features)\<^sup>*\<^sup>*
              (data, int (length data) - 1, 1, [(''initial_model'', mt0, data)]) (d, c, i, rs)
        \<and> \<not> c \<le> min_features \<and> feature_selection sk d step remove_count = Inl e"
  then have ex: "path_exists fs file_path"
    by (auto intro: read_csv_exists)
  from h have "selection_loop sk step remove_count min_features data (int (length data) - 1) 1
                  [(''initial_model'', mt0, data)]
             = selection_loop sk step remove_count min_features d c i rs"
    using passes_same_result [of sk step remove_count min_features
        "(data, int (length data) - 1, 1, [(''initial_model'', mt0, data)])" "(d, c, i, rs)"]
    by simp
  also from h have "\<dots> = Some (Inl e)" by (simp add: failing_pass_aborts)
  finally have lp: "selection_loop sk step remove_count min_features data (int (length data) - 1) 1
                  [(''initial_model'', mt0, data)] = Some (Inl e)" .
  from h ex lp show "optimize_model sk fs answer file_path step remove_count min_features save_dir
            = Some ([], Inl e)"
    by (simp add: optimize_model_def)
next
  assume "optimize_model sk fs answer file_path step remove_count min_features save_dir
          = Some (ops, Inl e')"
  from aborted_run_ops [OF this] show "\<forall>op \<in> set ops. op = Makedirs save_dir" by auto
qed

lemma run_missing:
  "\<not> path_exists fs0 ''missing.csv''"
  by (simp add: path_exists_def fs0_def)

lemma run_failing_rfe:
  "read_csv fs0 ''data.csv'' = Inr data0 \<and> train_model stub_failing_rfe data0 = Inr ((3, 1), m_half)
   \<and> \<not> int (length data0) - 1 \<le> 1 \<and> feature_selection stub_failing_rfe data0 1 1 = Inl RankingError"
  by (simp add: run_defs frame_defs fixture_defs stub_failing_rfe_def)

lemma run_failing_refit:
  "optimize_model stub_failing_refit fs0 ''yes'' ''data.csv'' 1 1 1 ''out''
     = Some ([Makedirs ''out''], Inl FitError)"
  by (simp add: run_defs frame_defs string_defs fixture_defs stub_failing_refit_def
      selection_loop.simps upt_rec Let_def)

theorem aborted_runs_write_no_file_witness:
  "(\<not> path_exists fs0 ''missing.csv'' \<and>
      optimize_model stub_failing_rfe fs0 ''yes'' ''missing.csv'' 1 1 1 ''out'' = Some ([], Inl NotFoundError))
   \<and> (feature_selection stub_failing_rfe data0 1 1 = Inl RankingError \<and>
      optimize_model stub_failing_rfe fs0 ''yes'' ''data.csv'' 1 1 1 ''out'' = Some ([], Inl RankingError))
   \<and> (optimize_model stub_failing_refit fs0 ''yes'' ''data.csv'' 1 1 1 ''out''
          = Some ([Makedirs ''out''], Inl FitError)
      \<and> set [Makedirs ''out''] \<subseteq> {Makedirs ''out'' :: (int, nat \<times> nat) fs_op})"
proof -
  have reach: "(pass stub_failing_rfe 1 1 1)\<^sup>*\<^sup>*
        (data0, int (length data0) - 1, 1, [(''initial_model'', m_half, data0)])
        (data0, int (length data0) - 1, 1, [(''initial_model'', m_half, data0)])"
    by simp
  have a: "optimize_model stub_failing_rfe fs0 ''yes'' ''missing.csv'' 1 1 1 ''out'' = Some ([], Inl NotFoundError)"
    using aborted_runs_write_no_file [of fs0 "''missing.csv''" stub_failing_rfe "''yes''" 1 1 1 "''out''"]
      run_missing by blast
  have b: "optimize_model stub_failing_rfe fs0 ''yes'' ''data.csv'' 1 1 1 ''out'' = Some ([], Inl RankingError)"
    using aborted_runs_write_no_file [of fs0 "''data.csv''" stub_failing_rfe "''yes''" 1 1 1 "''out''"
        data0 "(3, 1)" m_half data0 "int (length data0) - 1" 1 "[(''initial_model'', m_half, data0)]" RankingError]
      run_failing_rfe reach by blast
  have c: "set [Makedirs ''out''] \<subseteq> {Makedirs ''out'' :: (int, nat \<times> nat) fs_op}"
    using aborted_runs_write_no_file [of fs0 "''data.csv''" stub_failing_refit "''yes''" 1 1 1 "''out''"
        _ _ _ _ _ _ _ _ "[Makedirs ''out'']" FitError]
      run_failing_refit by blast
  show ?thesis using a b c run_missing run_failing_rfe run_failing_refit by simp
qed

subsection \<open>Determinism\<close>




subsection \<open>The frames of the loop\<close>

lemma filter_name_unique:
  "distinct (map fst X) \<Longrightarrow> c \<in> set X \<Longrightarrow> filter (\<lambda>c'. fst c' = fst c) X = [c]"
proof (induction X)
  case Nil
  then show ?case by simp
next
  case (Cons a X)
  show ?case
  proof (cases "c = a")
    case True
    from Cons.prems(1) have "\<forall>c' \<in> set X. fst c' \<noteq> fst a" by (auto simp: image_iff)
    then have "filter (\<lambda>c'. fst c' = fst a) X = []" by (simp add: filter_empty_conv)
    with True show ?thesis by simp
  next
    case False
    with Cons.prems have c: "c \<in> set X" by simp
    with Cons.prems(1) have "fst a \<noteq> fst c" by (auto simp: image_iff)
    moreover from Cons.IH Cons.prems(1) c have "filter (\<lambda>c'. fst c' = fst c) X = [c]" by simp
    ultimately show ?thesis by simp
  qed
qed

lemma loc_columns_own:
  "distinct (map fst X) \<Longrightarrow> set S \<subseteq> set X \<Longrightarrow> loc_columns X (map fst S) = S"
proof (induction S)
  case Nil
  then show ?case by (simp add: loc_columns_def)
next
  case (Cons c S)
  from Cons.prems have "filter (\<lambda>c'. fst c' = fst c) X = [c]"
    by (intro filter_name_unique) simp_all
  moreover from Cons have "loc_columns X (map fst S) = S" by simp
  ultimately show ?case by (simp add: loc_columns_def)
qed

lemma subseq_subset: "subseq xs ys \<Longrightarrow> set xs \<subseteq> set ys"
  by (induction rule: list_emb.induct) auto

lemma subseq_distinct_map: "subseq xs ys \<Longrightarrow> distinct (map f ys) \<Longrightarrow> distinct (map f xs)"
proof (induction rule: list_emb.induct)
  case (list_emb_Nil ys)
  show ?case by simp
next
  case (list_emb_Cons xs ys y)
  then show ?case by simp
next
  case (list_emb_Cons2 x y xs ys)
  from list_emb_Cons2.hyps(2) have "set xs \<subseteq> set ys" by (rule subseq_subset)
  with list_emb_Cons2 show ?case by auto
qed

lemma masked_subseq: "subseq (map fst (filter snd (zip X support))) X"
proof (induction X arbitrary: support)
  case Nil
  show ?case by simp
next
  case (Cons a X)
  show ?case
  proof (cases support)
    case Nil
    then show ?thesis by simp
  next
    case (Cons b bs)
    with Cons.IH [of bs] show ?thesis by (cases b) auto
  qed
qed

lemma masked_length:
  "length support = length X \<Longrightarrow>
     length (filter snd (zip X support)) = length (filter id support)"
proof (induction X arbitrary: support)
  case Nil
  then show ?case by simp
next
  case (Cons a X)
  then obtain b bs where "support = b # bs" by (cases support) auto
  with Cons show ?case by simp
qed

text \<open>
  On a frame whose column names are distinct and whose feature columns are not named
  \<open>target\<close>, a successful \<open>feature_selection\<close> returns the marked feature columns
  followed by the target values under the name \<open>target\<close>.
\<close>

lemma feature_selection_shape:
  assumes fs: "feature_selection sk data step rc = Inr (d', sel)"
    and dist: "distinct (map fst data)"
    and nt: "''target'' \<notin> set (map fst (butlast data))"
  shows "data \<noteq> [] \<and>
         (\<exists>support. rfe_support sk (butlast data) (snd (last data)) step (n_features (butlast data) rc)
                       = Inr support
              \<and> length support = length (butlast data)
              \<and> sel = map fst (map fst (filter snd (zip (butlast data) support)))
              \<and> d' = map fst (filter snd (zip (butlast data) support)) @ [(''target'', snd (last data))])"
proof -
  from fs have ne: "data \<noteq> []"
    by (auto simp: feature_selection_def iloc_target_def split: list.splits)
  then have y: "iloc_target data = Inr (snd (last data))"
    by (cases data) (simp_all add: iloc_target_def)
  let ?X = "butlast data"
  let ?y = "snd (last data)"
  from fs y obtain support where
    sup: "rfe_support sk ?X ?y step (n_features ?X rc) = Inr support"
    by (cases "rfe_support sk ?X ?y step (n_features ?X rc)")
       (auto simp: feature_selection_def iloc_features_def)
  from fs y sup have len: "length support = length ?X"
    by (auto simp: feature_selection_def iloc_features_def columns_mask_def Let_def split: if_splits)
  let ?S = "map fst (filter snd (zip ?X support))"
  from fs y sup len have sel: "sel = map fst ?S"
    and d': "d' = setitem (loc_columns ?X (map fst ?S)) ''target'' ?y"
    by (auto simp: feature_selection_def iloc_features_def columns_mask_def Let_def)
  have sub: "subseq ?S ?X" by (rule masked_subseq)
  then have subset: "set ?S \<subseteq> set ?X" by (rule subseq_subset)
  from dist have distX: "distinct (map fst ?X)" by (simp add: map_butlast distinct_butlast)
  from loc_columns_own [OF distX subset] have loc: "loc_columns ?X (map fst ?S) = ?S" .
  from subset nt have nts: "''target'' \<notin> set (map fst ?S)" by auto
  have "setitem ?S ''target'' ?y = ?S @ [(''target'', ?y)]"
    unfolding setitem_def by (simp only: nts if_False)
  with d' loc have "d' = ?S @ [(''target'', ?y)]" by (simp only:)
  with ne sup len sel show ?thesis by blast
qed

text \<open>The frames the loop works on, when it starts from a frame of distinct column names.\<close>

lemma feature_selection_keeps_shape:
  assumes fs: "feature_selection sk data step rc = Inr (d', sel)"
    and dist: "distinct (map fst data)"
    and nt: "''target'' \<notin> set (map fst (butlast data))"
  shows "distinct (map fst d') \<and> ''target'' \<notin> set (map fst (butlast d'))
       \<and> subseq (butlast d') (butlast data) \<and> last d' = (''target'', snd (last data))
       \<and> length sel = length (butlast d')"
proof -
  from feature_selection_shape [OF assms] obtain support where
    sel: "sel = map fst (map fst (filter snd (zip (butlast data) support)))" and
    d': "d' = map fst (filter snd (zip (butlast data) support)) @ [(''target'', snd (last data))]"
    by blast
  let ?S = "map fst (filter snd (zip (butlast data) support))"
  have sub: "subseq ?S (butlast data)" by (rule masked_subseq)
  from dist have distX: "distinct (map fst (butlast data))" by (simp add: map_butlast distinct_butlast)
  from sub distX have distS: "distinct (map fst ?S)" by (rule subseq_distinct_map)
  from subseq_subset [OF sub] nt have ntS: "''target'' \<notin> set (map fst ?S)" by auto
  from distS ntS d' sub sel show ?thesis by simp
qed

lemma n_features_range:
  assumes "1 \<le> length X" and "0 \<le> remove_count"
  shows "1 \<le> n_features X remove_count \<and> n_features X remove_count \<le> int (length X)"
  using assms by (simp add: n_features_def Let_def)

subsection \<open>Termination\<close>








text \<open>
  The defect is confined to a minimum below one. The arithmetic of one pass:
\<close>

lemma passes_bound_step:
  fixes cur mn rc :: int
  assumes "mn < cur" and "1 \<le> mn" and "1 \<le> rc"
  shows "1 + max 0 \<lceil>real_of_int (max 1 (cur - rc) - mn) / real_of_int rc\<rceil>
           \<le> max 0 \<lceil>real_of_int (cur - mn) / real_of_int rc\<rceil>"
proof -
  from assms have pos: "0 < real_of_int (cur - mn) / real_of_int rc" by simp
  then have k: "1 \<le> \<lceil>real_of_int (cur - mn) / real_of_int rc\<rceil>" by simp
  show ?thesis
  proof (cases "1 \<le> cur - rc")
    case True
    then have m: "max 1 (cur - rc) = cur - rc" by simp
    from assms have "real_of_int (cur - rc - mn) / real_of_int rc
                       = real_of_int (cur - mn) / real_of_int rc - 1"
      by (simp add: field_simps)
    then have "\<lceil>real_of_int (cur - rc - mn) / real_of_int rc\<rceil>
                 = \<lceil>real_of_int (cur - mn) / real_of_int rc\<rceil> - 1"
      by (simp only: ceiling_diff_one)
    with k m show ?thesis by simp
  next
    case False
    then have m: "max 1 (cur - rc) = 1" by simp
    from assms have "real_of_int (1 - mn) / real_of_int rc \<le> 0"
      by (simp add: divide_le_0_iff)
    then have "\<lceil>real_of_int (1 - mn) / real_of_int rc\<rceil> \<le> 0" by (simp add: ceiling_le_iff)
    with k m show ?thesis by simp
  qed
qed

text \<open>
  With a minimum of at least one feature and at least one feature removed per pass,
  the loop returns, and a loop that returns its records has added at most
  \<open>ceil((current - minimum) / remove_count)\<close> of them.
\<close>

lemma selection_loop_terminates:
  assumes contract: "rfe_contract sk" and rc: "1 \<le> rc" and mn: "1 \<le> mn"
  shows "distinct (map fst data) \<Longrightarrow> ''target'' \<notin> set (map fst (butlast data)) \<Longrightarrow> data \<noteq> []
         \<Longrightarrow> cur = int (length data) - 1
         \<Longrightarrow> \<exists>r. selection_loop sk step rc mn data cur it recs = Some r \<and>
             (\<forall>out. r = Inr out \<longrightarrow>
                int (length out) \<le> int (length recs) + max 0 \<lceil>real_of_int (cur - mn) / real_of_int rc\<rceil>)"
proof (induction "nat (cur - mn)" arbitrary: data cur it recs rule: less_induct)
  case less
  note dist = less.prems(1) and nt = less.prems(2) and ne = less.prems(3) and cur = less.prems(4)
  show ?case
  proof (cases "cur \<le> mn")
    case True
    then have "selection_loop sk step rc mn data cur it recs = Some (Inr recs)"
      by (subst selection_loop.simps) simp
    then show ?thesis by simp
  next
    case False
    show ?thesis
    proof (cases "feature_selection sk data step rc")
      case (Inl e)
      with False have "selection_loop sk step rc mn data cur it recs = Some (Inl e)"
        by (subst selection_loop.simps) simp
      then show ?thesis by simp
    next
      case (Inr p)
      obtain d' sel where p: "p = (d', sel)" by (cases p)
      with Inr have fs: "feature_selection sk data step rc = Inr (d', sel)" by simp
      show ?thesis
      proof (cases "train_model sk d'")
        case (Inl e)
        with False fs have "selection_loop sk step rc mn data cur it recs = Some (Inl e)"
          by (subst selection_loop.simps) simp
        then show ?thesis by simp
      next
        case (Inr q)
        obtain m mt where q: "q = (m, mt)" by (cases q)
        let ?recs' = "recs @ [(''model_iteration_'' @ str_nat it, mt, d')]"
        from False fs Inr q have unfold:
          "selection_loop sk step rc mn data cur it recs
             = selection_loop sk step rc mn d' (int (length sel)) (it + 1) ?recs'"
          by (subst selection_loop.simps) simp
        from feature_selection_shape [OF fs dist nt] obtain support where
          sup: "rfe_support sk (butlast data) (snd (last data)) step (n_features (butlast data) rc)
                  = Inr support"
          and len: "length support = length (butlast data)"
          and sel: "sel = map fst (map fst (filter snd (zip (butlast data) support)))"
          and d': "d' = map fst (filter snd (zip (butlast data) support)) @ [(''target'', snd (last data))]"
          by blast
        from cur ne have lenX: "int (length (butlast data)) = cur" by (cases data) simp_all
        from False mn lenX have X1: "1 \<le> length (butlast data)" by simp
        from rc have "0 \<le> rc" by simp
        from n_features_range [OF X1 this]
        have rng: "1 \<le> n_features (butlast data) rc"
          "n_features (butlast data) rc \<le> int (length (butlast data))" by simp_all
        from contract rng sup have "int (length (filter id support)) = n_features (butlast data) rc"
          unfolding rfe_contract_def by blast
        moreover from sel len have "length sel = length (filter id support)"
          by (simp add: masked_length)
        moreover have "n_features (butlast data) rc = max 1 (cur - rc)"
          using lenX by (simp add: n_features_def Let_def max_def)
        ultimately have cur': "int (length sel) = max 1 (cur - rc)" by simp
        from feature_selection_keeps_shape [OF fs dist nt] have
          k: "distinct (map fst d')" "''target'' \<notin> set (map fst (butlast d'))"
             "length sel = length (butlast d')" by simp_all
        from d' have ne': "d' \<noteq> []" by simp
        from k(3) have c': "int (length sel) = int (length d') - 1" using ne' by (cases d') simp_all
        from False rc mn cur' have decr: "nat (int (length sel) - mn) < nat (cur - mn)" by simp
        from less.hyps [OF decr k(1,2) ne' c', of "it + 1" ?recs'] obtain r where
          r: "selection_loop sk step rc mn d' (int (length sel)) (it + 1) ?recs' = Some r"
          and bound: "\<forall>out. r = Inr out \<longrightarrow>
                int (length out) \<le> int (length ?recs')
                    + max 0 \<lceil>real_of_int (int (length sel) - mn) / real_of_int rc\<rceil>"
          by blast
        from False have "mn < cur" by simp
        from passes_bound_step [OF this mn rc]
        have step: "1 + max 0 \<lceil>real_of_int (max 1 (cur - rc) - mn) / real_of_int rc\<rceil>
           \<le> max 0 \<lceil>real_of_int (cur - mn) / real_of_int rc\<rceil>" .
        have "\<forall>out. r = Inr out \<longrightarrow>
                int (length out) \<le> int (length recs) + max 0 \<lceil>real_of_int (cur - mn) / real_of_int rc\<rceil>"
        proof (intro allI impI)
          fix out assume "r = Inr out"
          with bound have "int (length out) \<le> int (length ?recs')
                    + max 0 \<lceil>real_of_int (int (length sel) - mn) / real_of_int rc\<rceil>" by blast
          also have "\<dots> = int (length recs)
                    + (1 + max 0 \<lceil>real_of_int (max 1 (cur - rc) - mn) / real_of_int rc\<rceil>)"
            by (simp only: cur' length_append) simp
          also from step have "\<dots> \<le> int (length recs) + max 0 \<lceil>real_of_int (cur - mn) / real_of_int rc\<rceil>"
            by simp
          finally show "int (length out) \<le> int (length recs) + max 0 \<lceil>real_of_int (cur - mn) / real_of_int rc\<rceil>" .
        qed
        with unfold r show ?thesis by simp
      qed
    qed
  qed
qed


text \<open>
  Hence a run with a minimum of at least one feature always returns, and a completed
  run has made at most \<open>ceil((initial - minimum) / remove_count)\<close> ranking passes.
\<close>

lemma run_terminates_within_bound:
  assumes contract: "rfe_contract sk"
    and rd: "read_csv fs file_path = Inr data"
    and dist: "distinct (map fst data)"
    and nt: "''target'' \<notin> set (map fst (butlast data))"
    and rc: "1 \<le> remove_count"
    and mn: "1 \<le> min_features"
  shows "optimize_model sk fs answer file_path step remove_count min_features save_dir \<noteq> None
       \<and> (\<forall>ops s. optimize_model sk fs answer file_path step remove_count min_features save_dir
                     = Some (ops, Inr s)
            \<longrightarrow> int (length (models_metrics s)) - 1
                  \<le> max 0 \<lceil>real_of_int (int (length data) - 1 - min_features)
                                / real_of_int remove_count\<rceil>)"
proof -
  from rd have ex: "path_exists fs file_path" by (rule read_csv_exists)
  have loop: "\<exists>r. selection_loop sk step remove_count min_features data (int (length data) - 1) 1
                      [(''initial_model'', mt0, data)] = Some r \<and>
             (\<forall>out. r = Inr out \<longrightarrow>
                int (length out) \<le> int (length [(''initial_model'', mt0, data)])
                   + max 0 \<lceil>real_of_int (int (length data) - 1 - min_features)
                                / real_of_int remove_count\<rceil>)"
    if "train_model sk data = Inr (m0, mt0)" for m0 mt0
  proof -
    from that have ne: "data \<noteq> []"
      by (auto simp: train_model_def iloc_target_def Let_def split: list.splits)
    show ?thesis
      by (rule selection_loop_terminates [OF contract rc mn dist nt ne refl])
  qed
  have returns: "optimize_model sk fs answer file_path step remove_count min_features save_dir \<noteq> None"
  proof (cases "train_model sk data")
    case (Inl e)
    with ex rd show ?thesis by (simp add: optimize_model_def)
  next
    case (Inr p)
    obtain m0 mt0 where p: "p = (m0, mt0)" by (cases p)
    from loop [OF Inr [unfolded p]] obtain r where
      "selection_loop sk step remove_count min_features data (int (length data) - 1) 1
          [(''initial_model'', mt0, data)] = Some r" by blast
    with ex rd Inr p show ?thesis
      by (simp add: optimize_model_def Let_def split: sum.splits prod.splits)
  qed
  have bound: "int (length (models_metrics s)) - 1
                  \<le> max 0 \<lceil>real_of_int (int (length data) - 1 - min_features)
                                / real_of_int remove_count\<rceil>"
    if run: "optimize_model sk fs answer file_path step remove_count min_features save_dir
               = Some (ops, Inr s)" for ops s
  proof -
    from run obtain data' m0 mt0 where
      rd': "read_csv fs file_path = Inr data'" and
      tm: "train_model sk data' = Inr (m0, mt0)" and
      lp: "selection_loop sk step remove_count min_features data' (int (length data') - 1) 1
             [(''initial_model'', mt0, data')] = Some (Inr (models_metrics s))"
      by (rule optimize_model_completed)
    from rd rd' have same: "data' = data" by simp
    from loop [OF tm [unfolded same]] lp [unfolded same] show ?thesis by auto
  qed
  from returns bound show ?thesis by blast
qed

subsection \<open>The files written\<close>

lemma py_max_mem: "py_max k xs = Inr w \<Longrightarrow> w \<in> set xs"
  using max_scan_mem by (fastforce simp: py_max_def split: list.splits)

lemma apply_ops_last_csv:
  "read_csv (apply_ops fs (pre @ [To_csv d p])) p = Inr d"
  by (simp add: apply_ops_def read_csv_def)

text \<open>Every recorded frame is the input frame (the baseline) or a selection from it.\<close>

lemma recorded_frames:
  assumes lp: "selection_loop sk step rc mn data cur it [(''initial_model'', mt0, data)]
                 = Some (Inr out)"
    and dist: "distinct (map fst data)"
    and nt: "''target'' \<notin> set (map fst (butlast data))"
    and mem: "(name, mt, d) \<in> set out"
  shows "(name = ''initial_model'' \<and> d = data) \<or>
         (name \<noteq> ''initial_model'' \<and>
          (\<exists>feats. subseq feats (butlast data) \<and> d = feats @ [(''target'', snd (last data))]))"
proof -
  define ok :: "'a record_entry \<Rightarrow> bool" where
    "ok = (\<lambda>r. (fst r = ''initial_model'' \<and> snd (snd r) = data) \<or>
         (fst r \<noteq> ''initial_model'' \<and>
          (\<exists>feats. subseq feats (butlast data)
               \<and> snd (snd r) = feats @ [(''target'', snd (last data))])))"
  define I :: "'a frame \<Rightarrow> 'a record_entry list \<Rightarrow> bool" where
    "I = (\<lambda>d recs. distinct (map fst d) \<and> ''target'' \<notin> set (map fst (butlast d))
              \<and> subseq (butlast d) (butlast data) \<and> snd (last d) = snd (last data)
              \<and> (\<forall>r \<in> set recs. ok r))"
  have "ok (''initial_model'', mt0, data)"
    by (simp add: ok_def)
  with dist nt have init: "I data [(''initial_model'', mt0, data)]"
    by (simp add: I_def)
  have pres: "I d' (rs @ [(''model_iteration_'' @ str_nat i, mt, d')])"
    if I: "I d rs" and fs: "feature_selection sk d step rc = Inr (d', sel)"
      and tm: "train_model sk d' = Inr (m, mt)"
    for d rs d' sel m mt i
  proof -
    from I have d: "distinct (map fst d)" "''target'' \<notin> set (map fst (butlast d))"
      and sub: "subseq (butlast d) (butlast data)" and y: "snd (last d) = snd (last data)"
      and rs: "\<forall>r \<in> set rs. ok r" by (simp_all add: I_def)
    from feature_selection_keeps_shape [OF fs d] have
      k: "distinct (map fst d')" "''target'' \<notin> set (map fst (butlast d'))"
         "subseq (butlast d') (butlast d)" "last d' = (''target'', snd (last d))" by simp_all
    from feature_selection_shape [OF fs d] obtain S where d': "d' = S @ [(''target'', snd (last d))]"
      by blast
    from k(3) sub have sub': "subseq (butlast d') (butlast data)"
      by (rule subseq_order.trans)
    from d' have "butlast d' = S" by simp
    with sub' have "subseq S (butlast data)" by simp
    with d' y have "\<exists>feats. subseq feats (butlast data)
                       \<and> d' = feats @ [(''target'', snd (last data))]" by auto
    then have new: "ok (''model_iteration_'' @ str_nat i, mt, d')"
      by (simp add: ok_def)
    from k(4) y have "snd (last d') = snd (last data)" by simp
    with k(1,2) sub' rs new show ?thesis by (simp add: I_def)
  qed
  have "\<exists>d. I d out"
    by (rule selection_loop_invariant [where I = I, OF lp init pres])
  then have "\<forall>r \<in> set out. ok r" by (auto simp: I_def)
  with mem have "ok (name, mt, d)" by blast
  then show ?thesis by (simp add: ok_def)
qed

text \<open>
  Claim C6, amended. Take an input data set of distinct column names, none of its
  feature columns named \<open>target\<close>. In every completed run the last write is the
  winner's data set to \<open>best_features_<label>.csv\<close> in the save directory, and reading
  that file back gives the winner's data set. If an elimination iteration wins, the
  data set is a selection of the input's feature columns, in their original order,
  followed by a column named \<open>target\<close> holding the input's target values. If the
  baseline wins, it is the input data set unchanged, so that its last column keeps the
  name it has in the input.
\<close>

theorem feature_subset_csv_round_trip:
  assumes run: "optimize_model sk fs answer file_path step remove_count min_features save_dir
                  = Some (ops, Inr s)"
    and rd: "read_csv fs file_path = Inr data"
    and dist: "distinct (map fst data)"
    and nt: "''target'' \<notin> set (map fst (butlast data))"
  shows "last ops = To_csv (best_data s) (best_features_file s)
       \<and> best_features_file s = path_join save_dir (''best_features_'' @ best_model_name s @ ''.csv'')
       \<and> read_csv (apply_ops fs ops) (best_features_file s) = Inr (best_data s)
       \<and> (best_model_name s = ''initial_model'' \<longrightarrow> best_data s = data)
       \<and> (best_model_name s \<noteq> ''initial_model'' \<longrightarrow>
            (\<exists>feats. subseq feats (butlast data)
                 \<and> best_data s = feats @ [(''target'', snd (last data))]))"
proof -
  from run obtain data' m0 mt0 where
    rd': "read_csv fs file_path = Inr data'" and
    tm: "train_model sk data' = Inr (m0, mt0)" and
    lp: "selection_loop sk step remove_count min_features data' (int (length data') - 1) 1
           [(''initial_model'', mt0, data')] = Some (Inr (models_metrics s))" and
    mx: "py_max (\<lambda>x. R2 (fst (snd x))) (models_metrics s)
           = Inr (best_model_name s, best_metrics s, best_data s)" and
    ff: "best_features_file s = path_join save_dir (''best_features_'' @ best_model_name s @ ''.csv'')" and
    ops: "ops = (if \<not> path_exists fs save_dir then [Makedirs save_dir] else [])
           @ (if lower (strip answer) \<in> {''yes'', ''y''} then [Dump (final_model s) (best_model_file s)] else [])
           @ [To_csv (best_data s) (best_features_file s)]"
    by (rule optimize_model_completed)
  from rd rd' have same: "data' = data" by simp
  have last: "last ops = To_csv (best_data s) (best_features_file s)"
    by (simp add: ops)
  obtain pre where pre: "ops = pre @ [To_csv (best_data s) (best_features_file s)]"
    using ops by (metis append.assoc)
  have reload: "read_csv (apply_ops fs ops) (best_features_file s) = Inr (best_data s)"
    unfolding pre by (rule apply_ops_last_csv)
  from py_max_mem [OF mx] have mem: "(best_model_name s, best_metrics s, best_data s) \<in> set (models_metrics s)" .
  from recorded_frames [OF lp [unfolded same] dist nt mem]
  have shape: "(best_model_name s = ''initial_model'' \<and> best_data s = data) \<or>
         (best_model_name s \<noteq> ''initial_model'' \<and>
          (\<exists>feats. subseq feats (butlast data) \<and> best_data s = feats @ [(''target'', snd (last data))]))" .
  from last ff reload shape show ?thesis by blast
qed


theorem feature_subset_csv_round_trip_witness:
  "read_csv fs0 ''data.csv'' = Inr data0
   \<and> distinct (map fst data0)
   \<and> ''target'' \<notin> set (map fst (butlast data0))
   \<and> optimize_model stub_sk fs0 ''yes'' ''data.csv'' 1 1 1 ''out'' = Some (run1_ops, Inr run1_summary)
   \<and> last run1_ops = To_csv (best_data run1_summary) (best_features_file run1_summary)
   \<and> best_features_file run1_summary
         = path_join ''out'' (''best_features_'' @ best_model_name run1_summary @ ''.csv'')
   \<and> read_csv (apply_ops fs0 run1_ops) (best_features_file run1_summary) = Inr (best_data run1_summary)
   \<and> best_model_name run1_summary \<noteq> ''initial_model''
   \<and> (\<exists>feats. subseq feats (butlast data0)
          \<and> best_data run1_summary = feats @ [(''target'', snd (last data0))])
   \<and> optimize_model stub_sk fs0 ''no'' ''data.csv'' 1 1 3 ''out'' = Some (run0_ops, Inr run0_summary)
   \<and> last run0_ops = To_csv (best_data run0_summary) (best_features_file run0_summary)
   \<and> read_csv (apply_ops fs0 run0_ops) (best_features_file run0_summary) = Inr (best_data run0_summary)
   \<and> best_model_name run0_summary = ''initial_model''
   \<and> best_data run0_summary = data0"
proof -
  have rd: "read_csv fs0 ''data.csv'' = Inr data0" by (simp add: read_csv_def fs0_def)
  have dist: "distinct (map fst data0)" by (simp add: data0_def)
  have nt: "''target'' \<notin> set (map fst (butlast data0))" by (simp add: data0_def)
  have n1: "best_model_name run1_summary \<noteq> ''initial_model''" by (simp add: run1_summary_def)
  have n0: "best_model_name run0_summary = ''initial_model''" by (simp add: run0_summary_def)
  note w1 = feature_subset_csv_round_trip [OF run1 rd dist nt]
  note w0 = feature_subset_csv_round_trip [OF run0 rd dist nt]
  from w1 n1 have a: "last run1_ops = To_csv (best_data run1_summary) (best_features_file run1_summary)"
    "best_features_file run1_summary
         = path_join ''out'' (''best_features_'' @ best_model_name run1_summary @ ''.csv'')"
    "read_csv (apply_ops fs0 run1_ops) (best_features_file run1_summary) = Inr (best_data run1_summary)"
    "\<exists>feats. subseq feats (butlast data0)
          \<and> best_data run1_summary = feats @ [(''target'', snd (last data0))]"
    by blast+
  from w0 n0 have b: "last run0_ops = To_csv (best_data run0_summary) (best_features_file run0_summary)"
    "read_csv (apply_ops fs0 run0_ops) (best_features_file run0_summary) = Inr (best_data run0_summary)"
    "best_data run0_summary = data0"
    by blast+
  from rd dist nt run1 a n1 run0 b n0 show ?thesis by (intro conjI)
qed

text \<open>
  Claim C6 as stated fails. With a minimum of three features on the test data the
  baseline is the only candidate and wins; the file written is the input data set,
  whose columns are \<open>a\<close>, \<open>b\<close>, \<open>c\<close> and \<open>y\<close>: no column is named \<open>target\<close>.
\<close>

theorem feature_subset_csv_target_name_counterexample:
  "map_option fst (optimize_model stub_sk fs0 ''no'' ''data.csv'' 1 1 3 ''out'')
     = Some [Makedirs ''out'', To_csv data0 ''out/best_features_initial_model.csv'']
   \<and> map fst data0 = [''a'', ''b'', ''c'', ''y'']
   \<and> ''target'' \<notin> set (map fst data0)"
  by (simp add: run_defs frame_defs string_defs fixture_defs selection_loop.simps Let_def)

subsection \<open>The model that is saved\<close>

text \<open>Every recorded iteration carries the metrics \<open>train_model\<close> computed on its data set.\<close>

lemma recorded_metrics:
  assumes lp: "selection_loop sk step rc mn data cur it [(''initial_model'', mt0, data)]
                 = Some (Inr out)"
    and tm0: "train_model sk data = Inr (m0, mt0)"
    and mem: "(name, mt, d) \<in> set out"
  shows "\<exists>m. train_model sk d = Inr (m, mt)"
proof -
  define I :: "'a frame \<Rightarrow> 'a record_entry list \<Rightarrow> bool" where
    "I = (\<lambda>d recs. \<forall>r \<in> set recs. \<exists>m. train_model sk (snd (snd r)) = Inr (m, fst (snd r)))"
  from tm0 have init: "I data [(''initial_model'', mt0, data)]"
    by (simp add: I_def)
  have pres: "I d' (rs @ [(''model_iteration_'' @ str_nat i, mt, d')])"
    if "I d rs" and "feature_selection sk d step rc = Inr (d', sel)"
      and "train_model sk d' = Inr (m, mt)"
    for d rs d' sel m mt i
    using that by (simp add: I_def)
  have "\<exists>d. I d out"
    by (rule selection_loop_invariant [where I = I, OF lp init pres])
  with mem show ?thesis by (fastforce simp: I_def)
qed

text \<open>
  Claim C10. In every completed run the model that is saved (the only model a run ever
  serializes) is a fresh fit on all rows of the winner's data set, while the winner's
  recorded metrics are those of a model fitted on the training part of the split of
  that data set and evaluated on the held-out part. As the split holds out at least
  one row, the saved model was fitted on more rows than the model the metrics
  describe.
\<close>

theorem saved_model_refit_on_all_rows:
  assumes run: "optimize_model sk fs answer file_path step remove_count min_features save_dir
                  = Some (ops, Inr s)"
    and hold: "holds_out sk"
  shows "\<exists>y X_train X_test y_train y_test m.
           iloc_target (best_data s) = Inr y
         \<and> lr_fit sk (iloc_features (best_data s)) y = Inr (final_model s)
         \<and> (lower (strip answer) \<in> {''yes'', ''y''} \<longrightarrow>
               Dump (final_model s) (best_model_file s) \<in> set ops)
         \<and> (\<forall>m' p. Dump m' p \<in> set ops \<longrightarrow> m' = final_model s)
         \<and> train_test_split sk (iloc_features (best_data s)) y = Inr (X_train, X_test, y_train, y_test)
         \<and> lr_fit sk X_train y_train = Inr m
         \<and> best_metrics s =
               \<lparr> R2 = r2_score sk y_test (lr_predict sk m X_test),
                 RMSE = np_sqrt sk (mean_squared_error sk y_test (lr_predict sk m X_test)),
                 MAE = mean_absolute_error sk y_test (lr_predict sk m X_test),
                 Explained_Variance = explained_variance_score sk y_test (lr_predict sk m X_test) \<rparr>
         \<and> length y_train < length y"
proof -
  from run obtain data m0 mt0 y where
    tm: "train_model sk data = Inr (m0, mt0)" and
    lp: "selection_loop sk step remove_count min_features data (int (length data) - 1) 1
           [(''initial_model'', mt0, data)] = Some (Inr (models_metrics s))" and
    mx: "py_max (\<lambda>x. R2 (fst (snd x))) (models_metrics s)
           = Inr (best_model_name s, best_metrics s, best_data s)" and
    y: "iloc_target (best_data s) = Inr y" and
    fit: "lr_fit sk (iloc_features (best_data s)) y = Inr (final_model s)" and
    ops: "ops = (if \<not> path_exists fs save_dir then [Makedirs save_dir] else [])
           @ (if lower (strip answer) \<in> {''yes'', ''y''} then [Dump (final_model s) (best_model_file s)] else [])
           @ [To_csv (best_data s) (best_features_file s)]"
    by (rule optimize_model_completed)
  from py_max_mem [OF mx] have mem: "(best_model_name s, best_metrics s, best_data s) \<in> set (models_metrics s)" .
  from recorded_metrics [OF lp tm mem] obtain m where
    tmb: "train_model sk (best_data s) = Inr (m, best_metrics s)" by blast
  from tmb y obtain X_train X_test y_train y_test where
    sp: "train_test_split sk (iloc_features (best_data s)) y = Inr (X_train, X_test, y_train, y_test)"
    by (cases "train_test_split sk (iloc_features (best_data s)) y")
       (auto simp: train_model_def Let_def)
  from tmb y sp have fm: "lr_fit sk X_train y_train = Inr m"
    and bm: "best_metrics s =
               \<lparr> R2 = r2_score sk y_test (lr_predict sk m X_test),
                 RMSE = np_sqrt sk (mean_squared_error sk y_test (lr_predict sk m X_test)),
                 MAE = mean_absolute_error sk y_test (lr_predict sk m X_test),
                 Explained_Variance = explained_variance_score sk y_test (lr_predict sk m X_test) \<rparr>"
    by (auto simp: train_model_def Let_def split: sum.splits)
  from hold sp have less: "length y_train < length y"
    unfolding holds_out_def by blast
  have d1: "lower (strip answer) \<in> {''yes'', ''y''} \<longrightarrow>
               Dump (final_model s) (best_model_file s) \<in> set ops"
    by (simp add: ops)
  have d2: "\<forall>m' p. Dump m' p \<in> set ops \<longrightarrow> m' = final_model s"
    by (auto simp: ops split: if_splits)
  from y fit d1 d2 sp fm bm less show ?thesis by blast
qed

lemma stub_holds_out: "holds_out stub_sk"
  by (auto simp: holds_out_def stub_sk_def split: if_splits)

theorem saved_model_refit_on_all_rows_witness:
  "optimize_model stub_sk fs0 ''yes'' ''data.csv'' 1 1 1 ''out'' = Some (run1_ops, Inr run1_summary)
   \<and> holds_out stub_sk
   \<and> (\<exists>y X_train X_test y_train y_test m.
           iloc_target (best_data run1_summary) = Inr y
         \<and> lr_fit stub_sk (iloc_features (best_data run1_summary)) y = Inr (final_model run1_summary)
         \<and> (lower (strip ''yes'') \<in> {''yes'', ''y''} \<longrightarrow>
               Dump (final_model run1_summary) (best_model_file run1_summary) \<in> set run1_ops)
         \<and> (\<forall>m' p. Dump m' p \<in> set run1_ops \<longrightarrow> m' = final_model run1_summary)
         \<and> train_test_split stub_sk (iloc_features (best_data run1_summary)) y
               = Inr (X_train, X_test, y_train, y_test)
         \<and> lr_fit stub_sk X_train y_train = Inr m
         \<and> best_metrics run1_summary =
               \<lparr> R2 = r2_score stub_sk y_test (lr_predict stub_sk m X_test),
                 RMSE = np_sqrt stub_sk (mean_squared_error stub_sk y_test (lr_predict stub_sk m X_test)),
                 MAE = mean_absolute_error stub_sk y_test (lr_predict stub_sk m X_test),
                 Explained_Variance = explained_variance_score stub_sk y_test (lr_predict stub_sk m X_test) \<rparr>
         \<and> length y_train < length y)"
  using run1 stub_holds_out saved_model_refit_on_all_rows [OF run1 stub_holds_out]
  by (intro conjI)

end
